theory Spec2Isabelle
  imports Complex_Main
begin

section \<open>JavaScript values\<close>

text \<open>
  The component in \<^verbatim>\<open>client/src/App.vue\<close> works on JavaScript strings, numbers and on
  the decoded JSON body of the crawl response. Strings are modelled as \<^typ>\<open>string\<close>, one
  \<^typ>\<open>char\<close> per UTF-16 code unit; the model therefore covers the strings whose code units
  are below 256 (ASCII and Latin-1), where whitespace and case mapping are given in full.

  A JavaScript number is a finite value, \<open>NaN\<close> or an infinity. Finite values are kept as
  rationals; the doubles are among them. Where the program makes a number out of digits
  (\<open>parseInt\<close>), the value is rounded to a double here as well.
\<close>

datatype jsnum = Finite rat | NaN | PosInf | NegInf

datatype jsval =
    JUndefined
  | JNull
  | JBool bool
  | JNum jsnum
  | JStr string
  | JArr "jsval list"
  | JObj "(string \<times> jsval) list"

datatype error = TypeError

subsection \<open>Strings\<close>

text \<open>The white space and line terminators of ECMAScript with a code unit below 256:
  TAB, LF, VT, FF, CR, SP and NBSP.\<close>

definition isWhiteSpace :: "char \<Rightarrow> bool" where
  "isWhiteSpace c \<longleftrightarrow>
     c \<in> set [CHR 0x09, CHR 0x0A, CHR 0x0B, CHR 0x0C, CHR 0x0D, CHR 0x20, CHR 0xA0]"

definition trimStart :: "string \<Rightarrow> string" where
  "trimStart s = dropWhile isWhiteSpace s"

definition trimEnd :: "string \<Rightarrow> string" where
  "trimEnd s = rev (dropWhile isWhiteSpace (rev s))"

definition trim :: "string \<Rightarrow> string" where
  "trim s = trimEnd (trimStart s)"

text \<open>\<^verbatim>\<open>String.prototype.toLowerCase\<close> on code units below 256: the upper-case letters are
  \<open>A\<close> to \<open>Z\<close> (65 to 90) and U+00C0 to U+00DE without the multiplication sign U+00D7;
  each is 32 below its lower-case letter.\<close>

definition lowerChar :: "char \<Rightarrow> char" where
  "lowerChar c =
     (let n = (of_char c :: nat)
      in if (65 \<le> n \<and> n \<le> 90) \<or> (192 \<le> n \<and> n \<le> 222 \<and> n \<noteq> 215)
         then char_of (n + 32) else c)"

definition toLowerCase :: "string \<Rightarrow> string" where
  "toLowerCase s = map lowerChar s"

definition startsWith :: "string \<Rightarrow> string \<Rightarrow> bool" where
  "startsWith s p \<longleftrightarrow> take (length p) s = p"

subsection \<open>Numbers\<close>

definition digitChar :: "nat \<Rightarrow> char" where
  "digitChar d = ''0123456789'' ! d"

fun showNat :: "nat \<Rightarrow> string" where
  "showNat n = (if n < 10 then [digitChar n] else showNat (n div 10) @ [digitChar (n mod 10)])"

declare showNat.simps [simp del]

definition showInt :: "int \<Rightarrow> string" where
  "showInt i = (if i < 0 then CHR ''-'' # showNat (nat (- i)) else showNat (nat i))"

text \<open>\<^verbatim>\<open>Number.isInteger\<close>, the comparison \<^verbatim>\<open>x > 0\<close>, \<^verbatim>\<open>isNaN\<close> and \<^verbatim>\<open>Math.min\<close>
  of two arguments.\<close>

fun isInteger :: "jsnum \<Rightarrow> bool" where
  "isInteger (Finite r) = (r = of_int \<lfloor>r\<rfloor>)"
| "isInteger _ = False"

fun gtZero :: "jsnum \<Rightarrow> bool" where
  "gtZero (Finite r) = (0 < r)"
| "gtZero PosInf = True"
| "gtZero _ = False"

fun isNaN :: "jsnum \<Rightarrow> bool" where
  "isNaN NaN = True"
| "isNaN _ = False"

fun mathMin :: "jsnum \<Rightarrow> jsnum \<Rightarrow> jsnum" where
  "mathMin NaN _ = NaN"
| "mathMin _ NaN = NaN"
| "mathMin NegInf _ = NegInf"
| "mathMin _ NegInf = NegInf"
| "mathMin PosInf y = y"
| "mathMin x PosInf = x"
| "mathMin (Finite a) (Finite b) = Finite (min a b)"

text \<open>The double nearest to a natural number: exact up to 53 bits, beyond that rounded to
  53 significant bits with ties to the even neighbour, and infinite from \<open>2^1024\<close> on.\<close>

fun bitLength :: "nat \<Rightarrow> nat" where
  "bitLength n = (if n = 0 then 0 else Suc (bitLength (n div 2)))"

declare bitLength.simps [simp del]

definition toDouble :: "nat \<Rightarrow> jsnum" where
  "toDouble n =
     (let e = bitLength n - 53;
          q = n div 2 ^ e;
          r = n mod 2 ^ e;
          q' = (if 2 ^ e < 2 * r \<or> (2 * r = 2 ^ e \<and> odd q) then q + 1 else q);
          m = q' * 2 ^ e
      in if 2 ^ 1024 \<le> m then PosInf else Finite (of_nat m))"

fun negate :: "jsnum \<Rightarrow> jsnum" where
  "negate (Finite r) = Finite (- r)"
| "negate PosInf = NegInf"
| "negate NegInf = PosInf"
| "negate NaN = NaN"

text \<open>\<^verbatim>\<open>parseInt(s, 10)\<close>: leading white space is dropped, one sign is read, and the longest
  prefix of decimal digits is the value, as a double; without a digit the result is
  \<open>NaN\<close>. (Past the twentieth significant digit the standard lets an implementation read
  zeros; the digits are read as they stand here.)\<close>

definition isDigit :: "char \<Rightarrow> bool" where
  "isDigit c \<longleftrightarrow> (48 \<le> (of_char c :: nat) \<and> (of_char c :: nat) \<le> 57)"

definition digitsValue :: "string \<Rightarrow> nat" where
  "digitsValue ds = foldl (\<lambda>acc c. 10 * acc + ((of_char c :: nat) - 48)) 0 ds"

definition parseInt :: "string \<Rightarrow> jsnum" where
  "parseInt s =
     (let t = trimStart s;
          neg = (t \<noteq> [] \<and> hd t = CHR ''-'');
          u = (if t \<noteq> [] \<and> (hd t = CHR ''+'' \<or> hd t = CHR ''-'') then tl t else t);
          z = takeWhile isDigit u
      in if z = [] then NaN
         else if neg then negate (toDouble (digitsValue z)) else toDouble (digitsValue z))"

section \<open>The environment of the component\<close>

text \<open>
  What the component takes from outside its own file: the build-time variable
  \<^verbatim>\<open>import.meta.env.VITE_API_URL\<close>, the \<^verbatim>\<open>content\<close> attribute of the page's
  \<^verbatim>\<open>csrf-token\<close> meta tag, and the library functions it calls without defining them.
  \<open>url_parses s\<close> holds when \<^verbatim>\<open>new URL(s)\<close> does not throw; \<open>parse_float\<close> is
  \<^verbatim>\<open>parseFloat\<close>; \<open>number_toString\<close> is \<^verbatim>\<open>Number.prototype.toString\<close> on the finite
  numbers that are not integers below \<open>2^53\<close> in size, whose digits it rounds or writes
  with a fraction or an exponent; \<open>render v\<close> is \<^verbatim>\<open>sanitizeContent(JSON.stringify(v, null, 2))\<close> handed to the
  editor's \<^verbatim>\<open>dispatch\<close>, which yields the new text of the buffer or throws.
\<close>

record env =
  VITE_API_URL :: "string option"
  csrf_token :: "string option"
  url_parses :: "string \<Rightarrow> bool"
  parse_float :: "string \<Rightarrow> jsnum"
  number_toString :: "rat \<Rightarrow> string"
  render :: "jsval \<Rightarrow> error + string"

definition numberToString :: "env \<Rightarrow> jsnum \<Rightarrow> string" where
  "numberToString E n =
     (case n of
        NaN \<Rightarrow> ''NaN''
      | PosInf \<Rightarrow> ''Infinity''
      | NegInf \<Rightarrow> ''-Infinity''
      | Finite r \<Rightarrow>
          if r = of_int \<lfloor>r\<rfloor> \<and> \<bar>r\<bar> < 2 ^ 53 then showInt \<lfloor>r\<rfloor> else number_toString E r)"

subsection \<open>Property access, truthiness, conversion to a string\<close>

text \<open>\<open>getProp v k\<close> is \<^verbatim>\<open>v[k]\<close> for the keys the component reads (\<^verbatim>\<open>pages\<close>,
  \<^verbatim>\<open>content\<close>, \<^verbatim>\<open>h1\<close> to \<^verbatim>\<open>h4\<close>, \<^verbatim>\<open>text\<close>): it throws on \<^verbatim>\<open>null\<close> and
  \<^verbatim>\<open>undefined\<close>, reads an own property of an object, and is \<^verbatim>\<open>undefined\<close> on a
  primitive or an array, none of which has a property of these names. An object is the
  list of its own properties; a decoded JSON object has every key once.\<close>

fun getProp :: "jsval \<Rightarrow> string \<Rightarrow> error + jsval" where
  "getProp JUndefined k = Inl TypeError"
| "getProp JNull k = Inl TypeError"
| "getProp (JObj kvs) k = Inr (case map_of kvs k of None \<Rightarrow> JUndefined | Some v \<Rightarrow> v)"
| "getProp v k = Inr JUndefined"

text \<open>\<open>falsy v\<close> is \<^verbatim>\<open>!v\<close>.\<close>

fun falsy :: "jsval \<Rightarrow> bool" where
  "falsy JUndefined = True"
| "falsy JNull = True"
| "falsy (JBool b) = (\<not> b)"
| "falsy (JNum n) = (n = Finite 0 \<or> n = NaN)"
| "falsy (JStr s) = (s = [])"
| "falsy (JArr xs) = False"
| "falsy (JObj kvs) = False"

text \<open>\<open>typeofObject v\<close> is \<^verbatim>\<open>typeof v === "object"\<close>, which holds of \<^verbatim>\<open>null\<close> too.\<close>

fun typeofObject :: "jsval \<Rightarrow> bool" where
  "typeofObject JNull = True"
| "typeofObject (JArr xs) = True"
| "typeofObject (JObj kvs) = True"
| "typeofObject v = False"

fun isArray :: "jsval \<Rightarrow> bool" where
  "isArray (JArr xs) = True"
| "isArray v = False"

text \<open>\<^verbatim>\<open>Array.prototype.join\<close> writes \<^verbatim>\<open>null\<close> and \<^verbatim>\<open>undefined\<close> as the empty string
  and converts every other element with \<open>ToString\<close>. An array converts by joining with
  a comma; an object converts to \<^verbatim>\<open>[object Object]\<close>, unless an own property
  \<^verbatim>\<open>toString\<close> (never callable in decoded JSON) hides the inherited method, and then the
  conversion throws.\<close>

fun toStringJS :: "env \<Rightarrow> jsval \<Rightarrow> error + string"
  and joinJS :: "env \<Rightarrow> string \<Rightarrow> jsval list \<Rightarrow> error + string" where
  "toStringJS E JUndefined = Inr ''undefined''"
| "toStringJS E JNull = Inr ''null''"
| "toStringJS E (JBool b) = Inr (if b then ''true'' else ''false'')"
| "toStringJS E (JNum n) = Inr (numberToString E n)"
| "toStringJS E (JStr s) = Inr s"
| "toStringJS E (JArr xs) = joinJS E '','' xs"
| "toStringJS E (JObj kvs) =
     (if ''toString'' \<in> set (map fst kvs) then Inl TypeError else Inr ''[object Object]'')"
| "joinJS E sep [] = Inr []"
| "joinJS E sep (x # xs) =
     (case (if x = JUndefined \<or> x = JNull then Inr [] else toStringJS E x) of
        Inl e \<Rightarrow> Inl e
      | Inr s \<Rightarrow>
          if xs = [] then Inr s
          else (case joinJS E sep xs of Inl e \<Rightarrow> Inl e | Inr t \<Rightarrow> Inr (s @ sep @ t)))"

fun mapE :: "('a \<Rightarrow> error + 'b) \<Rightarrow> 'a list \<Rightarrow> error + 'b list" where
  "mapE f [] = Inr []"
| "mapE f (x # xs) =
     (case f x of
        Inl e \<Rightarrow> Inl e
      | Inr y \<Rightarrow> (case mapE f xs of Inl e \<Rightarrow> Inl e | Inr ys \<Rightarrow> Inr (y # ys)))"

section \<open>The state of the component\<close>

text \<open>The refs of \<^verbatim>\<open>App.vue\<close>. \<open>editorView\<close> is the text of the editor's buffer once the
  view is mounted. \<open>lastCrawlTime\<close> and every \<^verbatim>\<open>Date.now()\<close> are milliseconds.
  \<open>displayMaxPages\<close> holds a string when the component writes it and, since its input has
  the type \<^verbatim>\<open>number\<close>, a number when \<^verbatim>\<open>v-model\<close> writes it.\<close>

datatype display = Text string | Number jsnum

record state =
  url :: string
  maxPages :: jsnum
  displayMaxPages :: display
  result :: jsval
  loading :: bool
  editorView :: "string option"
  lastCrawlTime :: int

definition MAX_CRAWL_PAGES :: jsnum where
  "MAX_CRAWL_PAGES = Finite 100"

definition CRAWL_COOLDOWN :: int where
  "CRAWL_COOLDOWN = 5000"

definition init :: "env \<Rightarrow> state" where
  "init E =
     \<lparr>url = [], maxPages = Finite 10, displayMaxPages = Text (numberToString E (Finite 10)),
      result = JNull, loading = False, editorView = None, lastCrawlTime = 0\<rparr>"

text \<open>\<^verbatim>\<open>onMounted\<close> creates the editor view with an empty document.\<close>

definition onMounted :: "state \<Rightarrow> state" where
  "onMounted st = st\<lparr>editorView := Some []\<rparr>"

subsection \<open>Input validation\<close>

definition normalizedUrl :: "state \<Rightarrow> string" where
  "normalizedUrl st =
     (let normalized = toLowerCase (trim (url st))
      in if \<not> startsWith normalized ''http://'' \<and> \<not> startsWith normalized ''https://''
         then ''https://'' @ normalized
         else normalized)"

definition isValidUrl :: "env \<Rightarrow> state \<Rightarrow> bool" where
  "isValidUrl E st \<longleftrightarrow> url_parses E (normalizedUrl st)"

definition isValidMaxPages :: "state \<Rightarrow> bool" where
  "isValidMaxPages st \<longleftrightarrow> isInteger (maxPages st) \<and> gtZero (maxPages st)"

definition canCrawl :: "env \<Rightarrow> state \<Rightarrow> bool" where
  "canCrawl E st \<longleftrightarrow> isValidUrl E st \<and> isValidMaxPages st"

text \<open>\<^verbatim>\<open>parseInt\<close> converts its argument to a string first.\<close>

definition displayString :: "env \<Rightarrow> display \<Rightarrow> string" where
  "displayString E v = (case v of Text s \<Rightarrow> s | Number n \<Rightarrow> numberToString E n)"

definition updateMaxPages :: "env \<Rightarrow> state \<Rightarrow> state" where
  "updateMaxPages E st =
     (let parsed = parseInt (displayString E (displayMaxPages st));
          st1 = (if \<not> isNaN parsed then st\<lparr>maxPages := mathMin parsed MAX_CRAWL_PAGES\<rparr> else st)
      in st1\<lparr>displayMaxPages := Text (numberToString E (maxPages st1))\<rparr>)"

section \<open>The crawl request\<close>

text \<open>What a handler does to the world outside the refs is returned as a list of effects,
  in the order of the source.\<close>

record request =
  req_url :: string
  body_url :: string
  body_max_pages :: jsnum
  header_csrf :: string

datatype effect =
    ConsoleLog string
  | ConsoleError string
  | Alert string
  | Post request
  | CreateBlob string string
  | Download string
  | RevokeObjectURL

text \<open>The template literal \<^verbatim>\<open>`${import.meta.env.VITE_API_URL}/crawl`\<close>: an absent variable
  is \<^verbatim>\<open>undefined\<close>, which a template literal writes as the word \<^verbatim>\<open>undefined\<close>.\<close>

definition crawlEndpoint :: "env \<Rightarrow> string" where
  "crawlEndpoint E = (case VITE_API_URL E of None \<Rightarrow> ''undefined'' | Some s \<Rightarrow> s) @ ''/crawl''"

definition csrfHeader :: "env \<Rightarrow> string" where
  "csrfHeader E = (case csrf_token E of None \<Rightarrow> [] | Some t \<Rightarrow> if t = [] then [] else t)"

text \<open>\<^verbatim>\<open>Math.ceil((CRAWL_COOLDOWN - (now - lastCrawlTime.value)) / 1000)\<close>\<close>

definition waitSeconds :: "int \<Rightarrow> state \<Rightarrow> int" where
  "waitSeconds now st =
     \<lceil>(of_int (CRAWL_COOLDOWN - (now - lastCrawlTime st)) :: rat) / 1000\<rceil>"

text \<open>\<open>crawlWebsite\<close> is the function up to its \<^verbatim>\<open>await\<close>: it returns after the rate
  limiter's alert, after the validator's alert, or with the request posted and the
  function suspended. \<open>now\<close> is the value of \<^verbatim>\<open>Date.now()\<close>.\<close>

definition crawlWebsite :: "env \<Rightarrow> int \<Rightarrow> state \<Rightarrow> state \<times> effect list" where
  "crawlWebsite E now st =
     (if now - lastCrawlTime st < CRAWL_COOLDOWN then
        (st, [Alert (''Please wait '' @ showInt (waitSeconds now st)
                       @ '' seconds before crawling again.'')])
      else
        let st1 = st\<lparr>lastCrawlTime := now\<rparr>
        in if \<not> canCrawl E st1 then
             (st1, [Alert (''Please enter a valid URL and number of pages (1-''
                             @ numberToString E MAX_CRAWL_PAGES @ '').'')])
           else
             (st1\<lparr>loading := True\<rparr>,
              [ConsoleLog ''Crawling URL:'',
               Post \<lparr>req_url = crawlEndpoint E, body_url = normalizedUrl st1,
                     body_max_pages = maxPages st1, header_csrf = csrfHeader E\<rparr>]))"

text \<open>The promise of \<^verbatim>\<open>axios.post\<close> settles with the decoded body or is rejected (a
  transport error or a status outside 2xx).\<close>

datatype response = Fulfilled jsval | Rejected

text \<open>\<open>crawlWebsite_resume\<close> is the rest of the function, from the \<^verbatim>\<open>await\<close> to the end
  of \<^verbatim>\<open>finally\<close>.\<close>

definition crawlFailed :: "state \<Rightarrow> state \<times> effect list" where
  "crawlFailed st =
     (st\<lparr>loading := False\<rparr>,
      [ConsoleError ''Error:'',
       Alert ''An error occurred while crawling the website. Please try again later.''])"

definition crawlWebsite_resume :: "env \<Rightarrow> response \<Rightarrow> state \<Rightarrow> state \<times> effect list" where
  "crawlWebsite_resume E r st =
     (case r of
        Rejected \<Rightarrow> crawlFailed st
      | Fulfilled d \<Rightarrow>
          let st1 = st\<lparr>result := d\<rparr>
          in (case editorView st1 of
                None \<Rightarrow> (st1\<lparr>loading := False\<rparr>, [])
              | Some doc \<Rightarrow>
                  (case render E (result st1) of
                     Inl e \<Rightarrow> crawlFailed st1
                   | Inr txt \<Rightarrow> (st1\<lparr>editorView := Some txt, loading := False\<rparr>, []))))"

section \<open>The text export\<close>

definition headerKeys :: "string list" where
  "headerKeys = [''h1'', ''h2'', ''h3'', ''h4'']"

fun arrayOrEmpty :: "jsval \<Rightarrow> jsval list" where
  "arrayOrEmpty (JArr xs) = xs"
| "arrayOrEmpty v = []"

text \<open>The callback of \<^verbatim>\<open>result.value.pages.flatMap\<close>. Reading \<^verbatim>\<open>page.content[h]\<close>
  throws when \<^verbatim>\<open>page.content\<close> is \<^verbatim>\<open>null\<close>.\<close>

definition pageItems :: "jsval \<Rightarrow> error + jsval list" where
  "pageItems page =
     (if falsy page then Inr []
      else case getProp page ''content'' of
             Inl e \<Rightarrow> Inl e
           | Inr content \<Rightarrow>
               if \<not> typeofObject content then Inr []
               else (case mapE (getProp content) headerKeys of
                       Inl e \<Rightarrow> Inl e
                     | Inr hs \<Rightarrow>
                         (case getProp content ''text'' of
                            Inl e \<Rightarrow> Inl e
                          | Inr t \<Rightarrow> Inr (concat (map arrayOrEmpty hs) @ arrayOrEmpty t))))"

definition notExpectedFormat :: "effect list" where
  "notExpectedFormat =
     [ConsoleLog ''Converting to TXT, result:'',
      ConsoleError ''Invalid result structure:'',
      Alert ''The data structure is not in the expected format.'']"

definition txtSeparator :: string where
  "txtSeparator = [CHR 0x0A, CHR 0x0A]"

definition txtDownload :: "string \<Rightarrow> effect list" where
  "txtDownload txtContent =
     [ConsoleLog ''Converting to TXT, result:'',
      ConsoleLog ''Processed content:'',
      ConsoleLog ''Final TXT content length:'',
      CreateBlob txtContent ''text/plain;charset=utf-8'',
      Download ''crawl_result.txt'',
      RevokeObjectURL]"

text \<open>\<open>convertToTxt\<close> returns the effects of the handler, or the exception that leaves
  it.\<close>

definition convertToTxt :: "env \<Rightarrow> state \<Rightarrow> error + effect list" where
  "convertToTxt E st =
     (if falsy (result st) then Inr notExpectedFormat
      else case getProp (result st) ''pages'' of
             Inl e \<Rightarrow> Inl e
           | Inr pages \<Rightarrow>
               if \<not> isArray pages then Inr notExpectedFormat
               else (case mapE pageItems (arrayOrEmpty pages) of
                       Inl e \<Rightarrow> Inl e
                     | Inr items \<Rightarrow>
                         (case joinJS E txtSeparator (concat items) of
                            Inl e \<Rightarrow> Inl e
                          | Inr txtContent \<Rightarrow> Inr (txtDownload txtContent))))"

section \<open>Handlers and events of a session\<close>

definition handleKeyPress :: "env \<Rightarrow> string \<Rightarrow> int \<Rightarrow> state \<Rightarrow> state \<times> effect list" where
  "handleKeyPress E key now st = (if key = ''Enter'' then crawlWebsite E now st else (st, []))"

text \<open>The crawl button carries \<^verbatim>\<open>:disabled="loading || !canCrawl"\<close>; a disabled button
  fires no click.\<close>

definition clickCrawl :: "env \<Rightarrow> int \<Rightarrow> state \<Rightarrow> state \<times> effect list" where
  "clickCrawl E now st = (if loading st \<or> \<not> canCrawl E st then (st, []) else crawlWebsite E now st)"

text \<open>\<^verbatim>\<open>v-model\<close> on an input of the type \<^verbatim>\<open>number\<close> stores the text of the input as a
  number when \<^verbatim>\<open>parseFloat\<close> reads one, and as it stands otherwise.\<close>

definition looseToNumber :: "env \<Rightarrow> string \<Rightarrow> display" where
  "looseToNumber E d = (let n = parse_float E d in if isNaN n then Text d else Number n)"

text \<open>A session is the refs together with the requests that were posted and have not
  settled yet. The events are those of the template: typing into the two inputs (the
  second one carries the text of the input and runs \<open>updateMaxPages\<close> after \<^verbatim>\<open>v-model\<close>),
  a key released in the URL input, a click on the crawl button, and the settling of the
  oldest pending request.\<close>

record session =
  ui :: state
  inflight :: "request list"

datatype event =
    Mounted
  | InputUrl string
  | InputMaxPages string
  | KeyUp string int
  | ClickCrawl int
  | Settle response

fun posted :: "effect list \<Rightarrow> request list" where
  "posted [] = []"
| "posted (Post r # es) = r # posted es"
| "posted (e # es) = posted es"

definition step :: "env \<Rightarrow> session \<Rightarrow> event \<Rightarrow> session" where
  "step E s ev =
     (case ev of
        Mounted \<Rightarrow> s\<lparr>ui := onMounted (ui s)\<rparr>
      | InputUrl u \<Rightarrow> s\<lparr>ui := (ui s)\<lparr>url := u\<rparr>\<rparr>
      | InputMaxPages d \<Rightarrow>
          s\<lparr>ui := updateMaxPages E ((ui s)\<lparr>displayMaxPages := looseToNumber E d\<rparr>)\<rparr>
      | KeyUp key now \<Rightarrow>
          (case handleKeyPress E key now (ui s) of
             (st, es) \<Rightarrow> \<lparr>ui = st, inflight = inflight s @ posted es\<rparr>)
      | ClickCrawl now \<Rightarrow>
          (case clickCrawl E now (ui s) of
             (st, es) \<Rightarrow> \<lparr>ui = st, inflight = inflight s @ posted es\<rparr>)
      | Settle r \<Rightarrow>
          (case inflight s of
             [] \<Rightarrow> s
           | q # qs \<Rightarrow> \<lparr>ui = fst (crawlWebsite_resume E r (ui s)), inflight = qs\<rparr>))"

definition run :: "env \<Rightarrow> event list \<Rightarrow> session" where
  "run E evs = foldl (step E) \<lparr>ui = init E, inflight = []\<rparr> evs"

section \<open>The address of the request\<close>

text \<open>The bootstrap file sets \<^verbatim>\<open>axios.defaults.baseURL\<close> to
  \<^verbatim>\<open>import.meta.env.VITE_API_URL || 'https://api.websitetotext.com'\<close>.\<close>

definition apiUrl :: "env \<Rightarrow> string" where
  "apiUrl E =
     (case VITE_API_URL E of
        None \<Rightarrow> ''https://api.websitetotext.com''
      | Some s \<Rightarrow> if s = [] then ''https://api.websitetotext.com'' else s)"

text \<open>The HTTP client resolves the address it is given against its base URL: an address
  that starts with a scheme and \<^verbatim>\<open>//\<close>, or with \<^verbatim>\<open>//\<close> alone, is absolute and used as it
  is; any other is appended to the base URL, with one slash between them.\<close>

definition isSchemeStart :: "char \<Rightarrow> bool" where
  "isSchemeStart c \<longleftrightarrow>
     (let n = (of_char c :: nat) in (65 \<le> n \<and> n \<le> 90) \<or> (97 \<le> n \<and> n \<le> 122))"

definition isSchemeChar :: "char \<Rightarrow> bool" where
  "isSchemeChar c \<longleftrightarrow> isSchemeStart c \<or> isDigit c \<or> c \<in> set ''+-.''"

definition isAbsoluteURL :: "string \<Rightarrow> bool" where
  "isAbsoluteURL u \<longleftrightarrow>
     startsWith u ''//'' \<or>
     (u \<noteq> [] \<and> isSchemeStart (hd u) \<and> startsWith (dropWhile isSchemeChar (tl u)) ''://'')"

definition dropTrailingSlashes :: "string \<Rightarrow> string" where
  "dropTrailingSlashes b =
     (if startsWith (rev b) ''//'' then rev (drop 2 (rev b))
      else if startsWith (rev b) ''/'' then rev (drop 1 (rev b))
      else b)"

definition combineURLs :: "string \<Rightarrow> string \<Rightarrow> string" where
  "combineURLs baseURL relativeURL =
     (if relativeURL = [] then baseURL
      else dropTrailingSlashes baseURL @ ''/'' @ dropWhile (\<lambda>c. c = CHR ''/'') relativeURL)"

definition buildFullPath :: "string \<Rightarrow> string \<Rightarrow> string" where
  "buildFullPath baseURL requestedURL =
     (if baseURL \<noteq> [] \<and> \<not> isAbsoluteURL requestedURL then combineURLs baseURL requestedURL
      else requestedURL)"

definition requestAddress :: "env \<Rightarrow> string" where
  "requestAddress E = buildFullPath (apiUrl E) (crawlEndpoint E)"

section \<open>The export as the specification words it\<close>




section \<open>Concrete data\<close>

text \<open>An environment without the build-time variable and without the meta tag. Its URL
  parser accepts the one address of the examples. Its \<open>parse_float\<close> reads the texts made
  of decimal digits, the only ones the examples type, as \<^verbatim>\<open>parseFloat\<close> does. Its
  \<open>number_toString\<close> is \<^verbatim>\<open>Number.prototype.toString\<close> at the double nearest to \<open>10^23\<close>,
  which is written \<^verbatim>\<open>1e+23\<close>, and at \<open>5 / 2\<close>.\<close>

definition sampleParseFloat :: "string \<Rightarrow> jsnum" where
  "sampleParseFloat d = (if d \<noteq> [] \<and> list_all isDigit d then toDouble (digitsValue d) else NaN)"

definition sampleNumberToString :: "rat \<Rightarrow> string" where
  "sampleNumberToString r = (if r = 99999999999999991611392 then ''1e+23'' else ''2.5'')"

definition sampleEnv :: env where
  "sampleEnv =
     \<lparr>VITE_API_URL = None, csrf_token = None,
      url_parses = (\<lambda>s. s = ''https://example.com''),
      parse_float = sampleParseFloat,
      number_toString = sampleNumberToString,
      render = (\<lambda>v. Inr ''{}'')\<rparr>"



text \<open>The result \<^verbatim>\<open>{pages: [{content: null}]}\<close>.\<close>

definition nullContentResult :: jsval where
  "nullContentResult = JObj [(''pages'', JArr [JObj [(''content'', JNull)]])]"

section \<open>An invariant of the page count\<close>

text \<open>\<open>maxPages\<close> is written by \<open>updateMaxPages\<close> alone, which stores the minimum of the
  ceiling and what \<open>parseInt\<close> returned: an integer or an infinity.\<close>

definition pagesInv :: "state \<Rightarrow> bool" where
  "pagesInv st \<longleftrightarrow> (\<exists>n. maxPages st = Finite (of_int n) \<and> n \<le> 100) \<or> maxPages st = NegInf"

section \<open>Properties of the input validator\<close>

lemma toLowerCase_append: "toLowerCase (a @ b) = toLowerCase a @ toLowerCase b"
  by (simp add: toLowerCase_def)

lemma toLowerCase_http: "toLowerCase ''http://'' = ''http://''"
  by code_simp

lemma toLowerCase_https: "toLowerCase ''https://'' = ''https://''"
  by code_simp

lemma startsWith_append: "startsWith (p @ s) p"
  by (simp add: startsWith_def)

lemma trimEnd_append:
  assumes "p \<noteq> []" and "\<not> isWhiteSpace (last p)"
  shows "trimEnd (p @ r) = p @ trimEnd r"
proof (cases "\<forall>c\<in>set r. isWhiteSpace c")
  case True
  then have r: "dropWhile isWhiteSpace (rev r) = []" by simp
  from assms have "dropWhile isWhiteSpace (rev p) = rev p"
    by (cases p rule: rev_cases) auto
  with True r show ?thesis
    by (simp add: trimEnd_def dropWhile_append)
next
  case False
  then show ?thesis
    by (auto simp: trimEnd_def dropWhile_append)
qed

lemma trim_scheme:
  assumes "p \<noteq> []" and "\<not> isWhiteSpace (hd p)" and "\<not> isWhiteSpace (last p)"
  shows "trim (p @ r) = p @ trimEnd r"
proof -
  from assms(1,2) have "trimStart (p @ r) = p @ r"
    by (cases p) (auto simp: trimStart_def)
  with assms show ?thesis by (simp add: trim_def trimEnd_append)
qed

lemma trim_http: "trim (''http://'' @ r) = ''http://'' @ trimEnd r"
  by (rule trim_scheme) (simp_all add: isWhiteSpace_def)

lemma trim_https: "trim (''https://'' @ r) = ''https://'' @ trimEnd r"
  by (rule trim_scheme) (simp_all add: isWhiteSpace_def)

lemma normalizedUrl_example:
  "url st = ''example.com'' \<Longrightarrow> normalizedUrl st = ''https://example.com''"
proof -
  have l: "toLowerCase ''example.com'' = ''example.com''" by code_simp
  have t: "trim ''example.com'' = ''example.com''"
    by (simp add: trim_def trimStart_def trimEnd_def isWhiteSpace_def)
  assume "url st = ''example.com''"
  then show ?thesis by (simp add: normalizedUrl_def t l startsWith_def)
qed

text \<open>
  Claim C9. \<open>normalizedUrl\<close> trims and lower-cases the input and puts \<^verbatim>\<open>https://\<close> in
  front exactly when the trimmed, lower-cased string starts with neither \<^verbatim>\<open>http://\<close>
  nor \<^verbatim>\<open>https://\<close>, and then the result starts with \<^verbatim>\<open>https://\<close>. An input that is
  \<^verbatim>\<open>http://\<close> or \<^verbatim>\<open>https://\<close> followed by \<open>rest\<close> keeps its scheme, followed by
  \<open>rest\<close> in lower case without its trailing white space.
\<close>

theorem normalizedUrl_scheme:
  "(startsWith (toLowerCase (trim (url st))) ''http://'' \<or>
    startsWith (toLowerCase (trim (url st))) ''https://''
      \<longrightarrow> normalizedUrl st = toLowerCase (trim (url st)))
   \<and> (\<not> startsWith (toLowerCase (trim (url st))) ''http://'' \<and>
      \<not> startsWith (toLowerCase (trim (url st))) ''https://''
      \<longrightarrow> normalizedUrl st = ''https://'' @ toLowerCase (trim (url st))
          \<and> startsWith (normalizedUrl st) ''https://'')
   \<and> (url st = ''http://'' @ rest
      \<longrightarrow> normalizedUrl st = ''http://'' @ toLowerCase (trimEnd rest))
   \<and> (url st = ''https://'' @ rest
      \<longrightarrow> normalizedUrl st = ''https://'' @ toLowerCase (trimEnd rest))"
proof (intro conjI impI)
  assume "startsWith (toLowerCase (trim (url st))) ''http://'' \<or>
    startsWith (toLowerCase (trim (url st))) ''https://''"
  then show "normalizedUrl st = toLowerCase (trim (url st))"
    by (auto simp: normalizedUrl_def Let_def)
next
  assume a: "\<not> startsWith (toLowerCase (trim (url st))) ''http://'' \<and>
      \<not> startsWith (toLowerCase (trim (url st))) ''https://''"
  then show n: "normalizedUrl st = ''https://'' @ toLowerCase (trim (url st))"
    by (simp add: normalizedUrl_def Let_def)
  show "startsWith (normalizedUrl st) ''https://''"
    unfolding n by (rule startsWith_append)
next
  assume u: "url st = ''http://'' @ rest"
  have "toLowerCase (trim (url st)) = ''http://'' @ toLowerCase (trimEnd rest)"
    unfolding u trim_http toLowerCase_append toLowerCase_http ..
  moreover have "startsWith (''http://'' @ toLowerCase (trimEnd rest)) ''http://''"
    by (rule startsWith_append)
  ultimately show "normalizedUrl st = ''http://'' @ toLowerCase (trimEnd rest)"
    by (simp add: normalizedUrl_def Let_def)
next
  assume u: "url st = ''https://'' @ rest"
  have "toLowerCase (trim (url st)) = ''https://'' @ toLowerCase (trimEnd rest)"
    unfolding u trim_https toLowerCase_append toLowerCase_https ..
  moreover have "startsWith (''https://'' @ toLowerCase (trimEnd rest)) ''https://''"
    by (rule startsWith_append)
  ultimately show "normalizedUrl st = ''https://'' @ toLowerCase (trimEnd rest)"
    by (simp add: normalizedUrl_def Let_def)
qed

theorem normalizedUrl_scheme_witness:
  "url ((init sampleEnv)\<lparr>url := ''http://Foo.Bar/Baz  ''\<rparr>) = ''http://'' @ ''Foo.Bar/Baz  ''
   \<and> normalizedUrl ((init sampleEnv)\<lparr>url := ''http://Foo.Bar/Baz  ''\<rparr>) = ''http://foo.bar/baz''
   \<and> \<not> startsWith (toLowerCase (trim (url ((init sampleEnv)\<lparr>url := '' Example.COM ''\<rparr>)))) ''http://''
   \<and> \<not> startsWith (toLowerCase (trim (url ((init sampleEnv)\<lparr>url := '' Example.COM ''\<rparr>)))) ''https://''
   \<and> normalizedUrl ((init sampleEnv)\<lparr>url := '' Example.COM ''\<rparr>) = ''https://example.com''"
proof -
  have t: "trim '' Example.COM '' = ''Example.COM''"
    by (simp add: trim_def trimStart_def trimEnd_def isWhiteSpace_def)
  have l: "toLowerCase ''Example.COM'' = ''example.com''" by code_simp
  have e: "toLowerCase (trimEnd ''Foo.Bar/Baz  '') = ''foo.bar/baz''" by code_simp
  have h: "url ((init sampleEnv)\<lparr>url := ''http://Foo.Bar/Baz  ''\<rparr>) = ''http://'' @ ''Foo.Bar/Baz  ''"
    by simp
  have n: "\<not> startsWith (toLowerCase (trim (url ((init sampleEnv)\<lparr>url := '' Example.COM ''\<rparr>)))) ''http://''
      \<and> \<not> startsWith (toLowerCase (trim (url ((init sampleEnv)\<lparr>url := '' Example.COM ''\<rparr>)))) ''https://''"
    by (simp add: t l startsWith_def)
  from h n
    normalizedUrl_scheme [of "(init sampleEnv)\<lparr>url := ''http://Foo.Bar/Baz  ''\<rparr>" "''Foo.Bar/Baz  ''"]
    normalizedUrl_scheme [of "(init sampleEnv)\<lparr>url := '' Example.COM ''\<rparr>" "[]"]
  show ?thesis by (simp add: t l e)
qed

subsection \<open>The page count\<close>

lemma bitLength_le: "n < 2 ^ k \<Longrightarrow> bitLength n \<le> k"
proof (induction k arbitrary: n)
  case 0
  then show ?case by (simp add: bitLength.simps)
next
  case (Suc k)
  show ?case
  proof (cases "n = 0")
    case True
    then show ?thesis by (simp add: bitLength.simps)
  next
    case False
    from Suc.prems have "n div 2 < 2 ^ k" by simp
    from Suc.IH [OF this] False show ?thesis
      by (subst bitLength.simps) simp
  qed
qed

lemma toDouble_small: "n < 2 ^ 53 \<Longrightarrow> toDouble n = Finite (of_nat n)"
proof -
  assume a: "n < 2 ^ 53"
  from bitLength_le [OF a] have e: "bitLength n - 53 = 0" by simp
  have "n < (2::nat) ^ 1024"
    using a by (rule less_trans) simp
  then show ?thesis by (simp add: toDouble_def e Let_def)
qed

lemma toDouble_cases: "toDouble n = PosInf \<or> (\<exists>m. toDouble n = Finite (of_int m))"
proof -
  have "\<exists>m. toDouble n = (if (2::nat) ^ 1024 \<le> m then PosInf else Finite (of_nat m))"
    unfolding toDouble_def Let_def by blast
  then obtain m where m: "toDouble n = (if (2::nat) ^ 1024 \<le> m then PosInf else Finite (of_nat m))" ..
  show ?thesis
  proof (cases "(2::nat) ^ 1024 \<le> m")
    case True
    with m show ?thesis by simp
  next
    case False
    with m have "toDouble n = Finite (of_int (int m))" by simp
    then show ?thesis by blast
  qed
qed

lemma negate_toDouble_cases:
  "negate (toDouble n) = NegInf \<or> (\<exists>m. negate (toDouble n) = Finite (of_int m))"
proof -
  from toDouble_cases [of n] show ?thesis
  proof
    assume "toDouble n = PosInf"
    then show ?thesis by simp
  next
    assume "\<exists>m. toDouble n = Finite (of_int m)"
    then obtain m where "toDouble n = Finite (of_int m)" ..
    then have "negate (toDouble n) = Finite (of_int (- m))" by simp
    then show ?thesis by blast
  qed
qed

lemma parseInt_cases:
  "parseInt s = NaN \<or> parseInt s = PosInf \<or> parseInt s = NegInf
   \<or> (\<exists>n. parseInt s = Finite (of_int n))"
proof -
  have "parseInt s = NaN \<or> (\<exists>n. parseInt s = toDouble n) \<or> (\<exists>n. parseInt s = negate (toDouble n))"
    by (simp add: parseInt_def Let_def) blast
  with toDouble_cases negate_toDouble_cases show ?thesis by metis
qed

lemma mathMin_ceiling:
  "mathMin PosInf MAX_CRAWL_PAGES = Finite 100"
  "mathMin NegInf MAX_CRAWL_PAGES = NegInf"
  "mathMin (Finite (of_int n)) MAX_CRAWL_PAGES = Finite (of_int (min n 100))"
  by (simp_all add: MAX_CRAWL_PAGES_def min_def)

lemma updateMaxPages_inv: "pagesInv st \<Longrightarrow> pagesInv (updateMaxPages E st)"
proof -
  assume i: "pagesInv st"
  let ?p = "parseInt (displayString E (displayMaxPages st))"
  have m: "maxPages (updateMaxPages E st)
             = (if \<not> isNaN ?p then mathMin ?p MAX_CRAWL_PAGES else maxPages st)"
    by (simp add: updateMaxPages_def Let_def)
  from parseInt_cases [of "displayString E (displayMaxPages st)"]
  consider "?p = NaN" | "?p = PosInf" | "?p = NegInf" | n where "?p = Finite (of_int n)"
    by blast
  then show ?thesis
  proof cases
    case 1
    with i m show ?thesis by (simp add: pagesInv_def)
  next
    case 2
    with m have "maxPages (updateMaxPages E st) = Finite (of_int 100)"
      by (simp add: mathMin_ceiling)
    then show ?thesis unfolding pagesInv_def by (intro disjI1 exI [of _ 100]) simp
  next
    case 3
    with m show ?thesis by (simp add: pagesInv_def mathMin_ceiling)
  next
    case 4
    with m have "maxPages (updateMaxPages E st) = Finite (of_int (min n 100))"
      by (simp add: mathMin_ceiling)
    then show ?thesis unfolding pagesInv_def by (intro disjI1 exI [of _ "min n 100"]) simp
  qed
qed

lemma crawlWebsite_maxPages: "maxPages (fst (crawlWebsite E now st)) = maxPages st"
  by (simp add: crawlWebsite_def Let_def)

lemma crawlWebsite_resume_maxPages: "maxPages (fst (crawlWebsite_resume E r st)) = maxPages st"
  by (simp add: crawlWebsite_resume_def crawlFailed_def Let_def
      split: response.splits option.splits sum.splits)

lemma crawlWebsite_inv:
  "crawlWebsite E now st = (st', es) \<Longrightarrow> pagesInv st \<Longrightarrow> pagesInv st'"
  using crawlWebsite_maxPages [of E now st] by (simp add: pagesInv_def)

lemma pagesInv_display: "pagesInv (st\<lparr>displayMaxPages := v\<rparr>) = pagesInv st"
  by (simp add: pagesInv_def)

lemma step_inv: "pagesInv (ui s) \<Longrightarrow> pagesInv (ui (step E s ev))"
proof (cases ev)
  case (InputMaxPages d)
  assume "pagesInv (ui s)"
  then have "pagesInv (updateMaxPages E ((ui s)\<lparr>displayMaxPages := looseToNumber E d\<rparr>))"
    by (intro updateMaxPages_inv) (simp add: pagesInv_display)
  with InputMaxPages show ?thesis by (simp add: step_def)
next
  case (KeyUp k now)
  assume "pagesInv (ui s)"
  with KeyUp show ?thesis
    by (auto simp: step_def handleKeyPress_def split: prod.splits dest: crawlWebsite_inv)
next
  case (ClickCrawl now)
  assume "pagesInv (ui s)"
  with ClickCrawl show ?thesis
    by (auto simp: step_def clickCrawl_def split: prod.splits if_splits dest: crawlWebsite_inv)
next
  case (Settle r)
  assume "pagesInv (ui s)"
  with Settle crawlWebsite_resume_maxPages [of E r "ui s"] show ?thesis
    by (simp add: step_def pagesInv_def split: list.splits)
qed (simp_all add: step_def pagesInv_def onMounted_def)

lemma foldl_step_inv: "pagesInv (ui s) \<Longrightarrow> pagesInv (ui (foldl (step E) s evs))"
  by (induction evs arbitrary: s) (simp_all add: step_inv)

lemma run_inv: "pagesInv (ui (run E evs))"
  unfolding run_def
  by (rule foldl_step_inv) (simp add: pagesInv_def init_def exI [of _ 10])

lemma isValidMaxPages_int:
  "isValidMaxPages st \<longleftrightarrow> (\<exists>n. maxPages st = Finite (of_int n) \<and> 1 \<le> n)"
proof
  assume v: "isValidMaxPages st"
  then obtain r where r: "maxPages st = Finite r" "r = of_int \<lfloor>r\<rfloor>" "0 < r"
    by (cases "maxPages st") (auto simp: isValidMaxPages_def)
  then have "0 < \<lfloor>r\<rfloor>" by linarith
  with r show "\<exists>n. maxPages st = Finite (of_int n) \<and> 1 \<le> n"
    by (intro exI [of _ "\<lfloor>r\<rfloor>"]) simp
next
  assume "\<exists>n. maxPages st = Finite (of_int n) \<and> 1 \<le> n"
  then show "isValidMaxPages st" by (auto simp: isValidMaxPages_def)
qed

text \<open>In every state a session reaches, \<open>canCrawl\<close> holds exactly when the normalized URL
  parses and the page count is an integer from 1 to 100: \<open>canCrawl\<close> tests for a positive
  integer, and no reachable page count is above the ceiling.\<close>

lemma canCrawl_reachable:
  "canCrawl E (ui (run E evs)) \<longleftrightarrow>
     url_parses E (normalizedUrl (ui (run E evs))) \<and>
     (\<exists>n. maxPages (ui (run E evs)) = Finite (of_int n) \<and> 1 \<le> n \<and> n \<le> 100)"
proof -
  from run_inv [of E evs]
  have "(\<exists>m. maxPages (ui (run E evs)) = Finite (of_int m) \<and> m \<le> 100)
        \<or> maxPages (ui (run E evs)) = NegInf"
    by (simp add: pagesInv_def)
  then show ?thesis
    by (auto simp: canCrawl_def isValidUrl_def isValidMaxPages_int)
qed

lemma canCrawl_page_counts:
  "\<not> isInteger (maxPages st) \<or> \<not> gtZero (maxPages st) \<Longrightarrow> \<not> canCrawl E st"
  "url_parses E (normalizedUrl st) \<Longrightarrow> maxPages st = Finite (of_int k) \<Longrightarrow> 1 \<le> k \<Longrightarrow> canCrawl E st"
  by (auto simp: canCrawl_def isValidUrl_def isValidMaxPages_def)

lemma digitChar_plain:
  assumes "d < 10"
  shows "isDigit (digitChar d)" and "(of_char (digitChar d) :: nat) - 48 = d"
proof -
  from assms have "d = 0 \<or> d = 1 \<or> d = 2 \<or> d = 3 \<or> d = 4 \<or> d = 5 \<or> d = 6 \<or> d = 7 \<or> d = 8 \<or> d = 9"
    by arith
  then show "isDigit (digitChar d)" and "(of_char (digitChar d) :: nat) - 48 = d"
    by (auto simp: digitChar_def isDigit_def)
qed

lemma digitsValue_snoc:
  "digitsValue (ds @ [c]) = 10 * digitsValue ds + ((of_char c :: nat) - 48)"
  by (simp add: digitsValue_def)

lemma showNat_digits: "showNat n \<noteq> [] \<and> list_all isDigit (showNat n) \<and> digitsValue (showNat n) = n"
proof (induction n rule: showNat.induct)
  case (1 n)
  show ?case
  proof (cases "n < 10")
    case True
    then have "showNat n = [digitChar n]" by (subst showNat.simps) simp
    with digitChar_plain [OF True] show ?thesis by (simp add: digitsValue_def)
  next
    case False
    then have s: "showNat n = showNat (n div 10) @ [digitChar (n mod 10)]"
      by (subst showNat.simps) simp
    have "n mod 10 < 10" by simp
    from digitChar_plain [OF this] "1.IH" [OF False] show ?thesis
      unfolding s by (simp add: digitsValue_snoc)
  qed
qed

lemma isDigit_plain: "isDigit c \<Longrightarrow> \<not> isWhiteSpace c \<and> c \<noteq> CHR ''+'' \<and> c \<noteq> CHR ''-''"
  by (auto simp: isDigit_def isWhiteSpace_def)

lemma parseInt_showNat: "parseInt (showNat n) = toDouble n"
proof -
  from showNat_digits [of n] obtain c cs where s: "showNat n = c # cs"
    and d: "isDigit c" "list_all isDigit cs" and v: "digitsValue (c # cs) = n"
    by (cases "showNat n") auto
  from d have t: "takeWhile isDigit (c # cs) = c # cs"
    by (simp add: list_all_iff takeWhile_eq_all_conv)
  from isDigit_plain [OF d(1)] show ?thesis
    unfolding s by (simp add: parseInt_def trimStart_def Let_def t v del: takeWhile.simps)
qed

text \<open>An integer above 100 and below \<open>2^53\<close> in the display field is clamped: the page
  count becomes 100 and the display field reads \<^verbatim>\<open>100\<close>.\<close>

lemma updateMaxPages_clamps:
  assumes "100 < k" and "k < 2 ^ 53"
  shows "maxPages (updateMaxPages E (st\<lparr>displayMaxPages := Number (Finite (of_nat k))\<rparr>)) = Finite 100"
    and "displayMaxPages (updateMaxPages E (st\<lparr>displayMaxPages := Number (Finite (of_nat k))\<rparr>))
           = Text ''100''"
proof -
  from assms(2) have "\<bar>rat_of_nat k\<bar> < 2 ^ 53"
    by (metis abs_of_nat of_nat_less_numeral_power_cancel_iff)
  then have "numberToString E (Finite (of_nat k)) = showNat k"
    by (simp add: numberToString_def showInt_def)
  then have p: "parseInt (displayString E (Number (Finite (of_nat k)))) = Finite (of_nat k)"
    by (simp add: displayString_def parseInt_showNat toDouble_small [OF assms(2)])
  have h: "showInt 100 = ''100''" by code_simp
  from assms(1) have "min (rat_of_nat k) 100 = 100" by simp
  with p show "maxPages (updateMaxPages E (st\<lparr>displayMaxPages := Number (Finite (of_nat k))\<rparr>)) = Finite 100"
    by (simp add: updateMaxPages_def Let_def MAX_CRAWL_PAGES_def)
  with p show "displayMaxPages (updateMaxPages E (st\<lparr>displayMaxPages := Number (Finite (of_nat k))\<rparr>))
           = Text ''100''"
    by (simp add: updateMaxPages_def Let_def MAX_CRAWL_PAGES_def numberToString_def h)
qed

lemma parseInt_exponent: "parseInt ''1e+23'' = Finite 1"
  by (simp add: parseInt_def trimStart_def isWhiteSpace_def isDigit_def digitsValue_def
      toDouble_def bitLength.simps Let_def)

text \<open>
  Claim C2. The claim does not hold of the source in its last clause. The page-count
  input has the type \<^verbatim>\<open>number\<close>, so \<^verbatim>\<open>v-model\<close> stores what was typed as a number, and
  \<open>updateMaxPages\<close> hands that number to \<^verbatim>\<open>parseInt\<close>, which reads the digits of its
  string. From \<open>10^21\<close> on the string has an exponent: the 23 nines are stored as the
  double nearest to \<open>10^23\<close>, written \<^verbatim>\<open>1e+23\<close>, of which \<^verbatim>\<open>parseInt\<close> reads \<open>1\<close>. The page
  count becomes 1 and the display field reads \<^verbatim>\<open>1\<close>, where the claim says 100. The
  hypotheses are what \<^verbatim>\<open>parseFloat\<close> and \<^verbatim>\<open>Number.prototype.toString\<close> return there.
\<close>

theorem large_page_count_not_clamped:
  assumes "parse_float E ''99999999999999999999999'' = Finite 99999999999999991611392"
    and "number_toString E 99999999999999991611392 = ''1e+23''"
  shows "maxPages (ui (step E s (InputMaxPages ''99999999999999999999999''))) = Finite 1
         \<and> displayMaxPages (ui (step E s (InputMaxPages ''99999999999999999999999''))) = Text ''1''"
proof -
  let ?st = "(ui s)\<lparr>displayMaxPages := looseToNumber E ''99999999999999999999999''\<rparr>"
  from assms(1) have l: "looseToNumber E ''99999999999999999999999''
      = Number (Finite 99999999999999991611392)"
    by (simp add: looseToNumber_def)
  from assms(2) have n: "numberToString E (Finite 99999999999999991611392) = ''1e+23''"
    by (simp add: numberToString_def)
  have p: "parseInt (displayString E (displayMaxPages ?st)) = Finite 1"
    by (simp add: l displayString_def n parseInt_exponent)
  have o: "showInt 1 = ''1''" by code_simp
  have u: "ui (step E s (InputMaxPages ''99999999999999999999999'')) = updateMaxPages E ?st"
    by (simp add: step_def)
  have "maxPages (updateMaxPages E ?st) = Finite 1"
    unfolding updateMaxPages_def Let_def p by (simp add: MAX_CRAWL_PAGES_def)
  moreover have "displayMaxPages (updateMaxPages E ?st) = Text ''1''"
    unfolding updateMaxPages_def Let_def p by (simp add: MAX_CRAWL_PAGES_def numberToString_def o)
  ultimately show ?thesis unfolding u by blast
qed

lemma sampleParseFloat_nines:
  "sampleParseFloat ''99999999999999999999999'' = Finite 99999999999999991611392"
proof -
  have dv: "digitsValue ''99999999999999999999999'' = 99999999999999999999999"
    by (simp add: digitsValue_def)
  have bl: "bitLength 99999999999999999999999 = 77"
    by (simp add: bitLength.simps)
  have td: "toDouble 99999999999999999999999 = Finite 99999999999999991611392"
    by (simp add: toDouble_def bl Let_def)
  have "list_all isDigit ''99999999999999999999999''"
    by (simp add: isDigit_def)
  then show ?thesis by (simp add: sampleParseFloat_def dv td)
qed

theorem large_page_count_not_clamped_witness:
  "parse_float sampleEnv ''99999999999999999999999'' = Finite 99999999999999991611392
   \<and> number_toString sampleEnv 99999999999999991611392 = ''1e+23''
   \<and> (100 :: rat) < 99999999999999991611392
   \<and> maxPages (ui (run sampleEnv [InputMaxPages ''99999999999999999999999''])) = Finite 1
   \<and> displayMaxPages (ui (run sampleEnv [InputMaxPages ''99999999999999999999999''])) = Text ''1''"
proof -
  have a: "parse_float sampleEnv ''99999999999999999999999'' = Finite 99999999999999991611392"
    by (simp add: sampleEnv_def sampleParseFloat_nines)
  have b: "number_toString sampleEnv 99999999999999991611392 = ''1e+23''"
    by (simp add: sampleEnv_def sampleNumberToString_def)
  have r: "run sampleEnv [InputMaxPages ''99999999999999999999999'']
             = step sampleEnv \<lparr>ui = init sampleEnv, inflight = []\<rparr>
                 (InputMaxPages ''99999999999999999999999'')"
    by (simp add: run_def)
  from large_page_count_not_clamped [OF a b, of "\<lparr>ui = init sampleEnv, inflight = []\<rparr>"] a b
  show ?thesis unfolding r by simp
qed

section \<open>Properties of the rate limiter\<close>

lemma waitSeconds_bounds:
  assumes "lastCrawlTime st \<le> now" and "now - lastCrawlTime st < CRAWL_COOLDOWN"
  shows "0 < waitSeconds now st" and "waitSeconds now st \<le> 5"
    and "1000 * (waitSeconds now st - 1) < CRAWL_COOLDOWN - (now - lastCrawlTime st)"
    and "CRAWL_COOLDOWN - (now - lastCrawlTime st) \<le> 1000 * waitSeconds now st"
proof -
  define x where "x = CRAWL_COOLDOWN - (now - lastCrawlTime st)"
  define q where "q = (of_int x :: rat) / 1000"
  have w: "waitSeconds now st = \<lceil>q\<rceil>"
    by (simp add: waitSeconds_def q_def x_def)
  from assms have x: "0 < x" "x \<le> 5000"
    by (simp_all add: x_def CRAWL_COOLDOWN_def)
  have xq: "(of_int x :: rat) = 1000 * q" by (simp add: q_def)
  from x have q: "0 < q" "q \<le> 5" by (simp_all add: q_def)
  from q show "0 < waitSeconds now st" by (simp add: w)
  from q show "waitSeconds now st \<le> 5" by (simp add: w ceiling_le_iff)
  have "of_int \<lceil>q\<rceil> - 1 < q" by linarith
  then have "(1000 * (of_int \<lceil>q\<rceil> - 1) :: rat) < of_int x" unfolding xq by simp
  then have "(of_int (1000 * (\<lceil>q\<rceil> - 1)) :: rat) < of_int x" by simp
  then have "1000 * (\<lceil>q\<rceil> - 1) < x" by (simp only: of_int_less_iff)
  then show "1000 * (waitSeconds now st - 1) < CRAWL_COOLDOWN - (now - lastCrawlTime st)"
    by (simp add: w x_def)
  have "q \<le> of_int \<lceil>q\<rceil>" by linarith
  then have "(of_int x :: rat) \<le> 1000 * of_int \<lceil>q\<rceil>" unfolding xq by simp
  then have "(of_int x :: rat) \<le> of_int (1000 * \<lceil>q\<rceil>)" by simp
  then have "x \<le> 1000 * \<lceil>q\<rceil>" by (simp only: of_int_le_iff)
  then show "CRAWL_COOLDOWN - (now - lastCrawlTime st) \<le> 1000 * waitSeconds now st"
    by (simp add: w x_def)
qed

lemma numberToString_ceiling: "numberToString E MAX_CRAWL_PAGES = ''100''"
proof -
  have "showInt 100 = ''100''" by code_simp
  then show ?thesis by (simp add: numberToString_def MAX_CRAWL_PAGES_def)
qed

text \<open>
  Claim C7. An attempt made at \<open>now\<close>, less than 5000 ms after the recorded timestamp,
  returns with the refs unchanged (the timestamp among them) and one alert as its only
  effect, so no request is posted. The alert names \<open>waitSeconds\<close>, the least number of
  whole seconds that covers the remaining wait, which is above 0 and at most 5.
\<close>

theorem rate_limit_rejects:
  assumes "lastCrawlTime st \<le> now" and "now - lastCrawlTime st < CRAWL_COOLDOWN"
  shows "crawlWebsite E now st =
           (st, [Alert (''Please wait '' @ showInt (waitSeconds now st)
                          @ '' seconds before crawling again.'')])
         \<and> posted (snd (crawlWebsite E now st)) = []
         \<and> lastCrawlTime (fst (crawlWebsite E now st)) = lastCrawlTime st
         \<and> 0 < waitSeconds now st \<and> waitSeconds now st \<le> 5
         \<and> 1000 * (waitSeconds now st - 1) < CRAWL_COOLDOWN - (now - lastCrawlTime st)
         \<and> CRAWL_COOLDOWN - (now - lastCrawlTime st) \<le> 1000 * waitSeconds now st"
  using assms(2) waitSeconds_bounds [OF assms]
  by (simp add: crawlWebsite_def)

theorem rate_limit_rejects_witness:
  "lastCrawlTime ((init sampleEnv)\<lparr>lastCrawlTime := 1700000000000\<rparr>) \<le> 1700000003500
   \<and> 1700000003500 - lastCrawlTime ((init sampleEnv)\<lparr>lastCrawlTime := 1700000000000\<rparr>)
       < CRAWL_COOLDOWN
   \<and> crawlWebsite sampleEnv 1700000003500 ((init sampleEnv)\<lparr>lastCrawlTime := 1700000000000\<rparr>)
       = ((init sampleEnv)\<lparr>lastCrawlTime := 1700000000000\<rparr>,
          [Alert ''Please wait 2 seconds before crawling again.''])"
proof -
  let ?st = "(init sampleEnv)\<lparr>lastCrawlTime := 1700000000000\<rparr>"
  have a: "lastCrawlTime ?st \<le> 1700000003500" by simp
  have b: "1700000003500 - lastCrawlTime ?st < CRAWL_COOLDOWN"
    by (simp add: CRAWL_COOLDOWN_def)
  note R = rate_limit_rejects [OF a b, of sampleEnv]
  have w: "waitSeconds 1700000003500 ?st = 2"
    unfolding waitSeconds_def by (rule ceiling_unique) (simp_all add: CRAWL_COOLDOWN_def)
  have s: "showInt 2 = ''2''" by code_simp
  from R have "crawlWebsite sampleEnv 1700000003500 ?st =
      (?st, [Alert (''Please wait '' @ showInt (waitSeconds 1700000003500 ?st)
                      @ '' seconds before crawling again.'')])"
    by (rule conjunct1)
  then have "crawlWebsite sampleEnv 1700000003500 ?st =
      (?st, [Alert ''Please wait 2 seconds before crawling again.''])"
    unfolding w s by simp
  with a b show ?thesis by blast
qed

text \<open>
  Claim C3. The claim does not hold of the source: \<open>crawlWebsite\<close> consults the rate
  limiter first and stores \<open>now\<close> in \<open>lastCrawlTime\<close> before it looks at \<open>canCrawl\<close>. When
  the Enter key is released in the URL input while \<open>canCrawl\<close> is false and the cooldown
  has passed, no request is posted and the validator's alert is shown, but the recorded
  timestamp becomes \<open>now\<close>.
\<close>

theorem enter_key_records_time:
  assumes "\<not> canCrawl E st" and "CRAWL_COOLDOWN \<le> now - lastCrawlTime st"
  shows "handleKeyPress E ''Enter'' now st =
           (st\<lparr>lastCrawlTime := now\<rparr>,
            [Alert ''Please enter a valid URL and number of pages (1-100).''])"
proof -
  have "canCrawl E (st\<lparr>lastCrawlTime := now\<rparr>) = canCrawl E st"
    by (simp add: canCrawl_def isValidUrl_def isValidMaxPages_def normalizedUrl_def)
  with assms show ?thesis
    by (simp add: handleKeyPress_def crawlWebsite_def Let_def numberToString_ceiling)
qed

theorem enter_key_records_time_witness:
  "\<not> canCrawl sampleEnv (ui (run sampleEnv [InputMaxPages ''0'']))
   \<and> CRAWL_COOLDOWN \<le> 1700000000000 - lastCrawlTime (ui (run sampleEnv [InputMaxPages ''0'']))
   \<and> lastCrawlTime (ui (run sampleEnv [InputMaxPages ''0''])) = 0
   \<and> posted (snd (handleKeyPress sampleEnv ''Enter'' 1700000000000
                    (ui (run sampleEnv [InputMaxPages ''0''])))) = []
   \<and> lastCrawlTime (fst (handleKeyPress sampleEnv ''Enter'' 1700000000000
                          (ui (run sampleEnv [InputMaxPages ''0''])))) = 1700000000000"
proof -
  let ?st = "ui (run sampleEnv [InputMaxPages ''0''])"
  have z: "sampleParseFloat ''0'' = Finite 0"
    by (simp add: sampleParseFloat_def isDigit_def digitsValue_def toDouble_def
        bitLength.simps Let_def)
  have n: "looseToNumber sampleEnv ''0'' = Number (Finite 0)"
    by (simp add: looseToNumber_def sampleEnv_def z)
  have "showInt 0 = ''0''" by code_simp
  then have d: "displayString sampleEnv (Number (Finite 0)) = ''0''"
    by (simp add: displayString_def numberToString_def)
  have p: "parseInt ''0'' = Finite 0"
    by (simp add: parseInt_def trimStart_def isWhiteSpace_def isDigit_def digitsValue_def
        toDouble_def bitLength.simps Let_def)
  have m: "maxPages ?st = Finite 0"
    by (simp add: run_def step_def updateMaxPages_def n d p MAX_CRAWL_PAGES_def Let_def)
  have l: "lastCrawlTime ?st = 0"
    by (simp add: run_def step_def updateMaxPages_def init_def Let_def)
  from m have a: "\<not> canCrawl sampleEnv ?st"
    by (simp add: canCrawl_def isValidMaxPages_def)
  from l have b: "CRAWL_COOLDOWN \<le> 1700000000000 - lastCrawlTime ?st"
    by (simp add: CRAWL_COOLDOWN_def)
  from enter_key_records_time [OF a b]
  have "posted (snd (handleKeyPress sampleEnv ''Enter'' 1700000000000 ?st)) = []"
    and "lastCrawlTime (fst (handleKeyPress sampleEnv ''Enter'' 1700000000000 ?st)) = 1700000000000"
    by simp_all
  with a b l show ?thesis by blast
qed

section \<open>Properties of the crawl client\<close>

text \<open>
  Claim C4. Whatever the outcome of a posted request (the body arrives and is shown, the
  body arrives and showing it throws, or the promise is rejected), the rest of
  \<open>crawlWebsite\<close> leaves \<open>loading\<close> false. A rejected request leaves the stored result as
  it was and ends with the error alert. The flag is the one that \<open>crawlWebsite\<close> set when
  it posted the request.
\<close>

theorem loading_released:
  "loading (fst (crawlWebsite_resume E r st)) = False
   \<and> result (fst (crawlWebsite_resume E Rejected st)) = result st
   \<and> crawlWebsite_resume E Rejected st = crawlFailed st
   \<and> (posted (snd (crawlWebsite E now st)) \<noteq> [] \<longrightarrow> loading (fst (crawlWebsite E now st)))"
  by (simp add: crawlWebsite_resume_def crawlFailed_def crawlWebsite_def Let_def
      split: response.splits option.splits sum.splits)

theorem loading_released_witness:
  "posted (snd (crawlWebsite sampleEnv 1700000000000 ((init sampleEnv)\<lparr>url := ''example.com''\<rparr>))) \<noteq> []
   \<and> loading (fst (crawlWebsite sampleEnv 1700000000000 ((init sampleEnv)\<lparr>url := ''example.com''\<rparr>)))
   \<and> loading (fst (crawlWebsite_resume sampleEnv Rejected
        (fst (crawlWebsite sampleEnv 1700000000000 ((init sampleEnv)\<lparr>url := ''example.com''\<rparr>))))) = False
   \<and> result (fst (crawlWebsite_resume sampleEnv Rejected
        (fst (crawlWebsite sampleEnv 1700000000000 ((init sampleEnv)\<lparr>url := ''example.com''\<rparr>))))) = JNull"
proof -
  let ?s = "(init sampleEnv)\<lparr>url := ''example.com''\<rparr>"
  let ?c = "crawlWebsite sampleEnv 1700000000000 ?s"
  have n: "normalizedUrl (?s\<lparr>lastCrawlTime := 1700000000000\<rparr>) = ''https://example.com''"
    by (rule normalizedUrl_example) simp
  have "url_parses sampleEnv ''https://example.com''" by (simp add: sampleEnv_def)
  then have c: "canCrawl sampleEnv (?s\<lparr>lastCrawlTime := 1700000000000\<rparr>)"
    unfolding canCrawl_def isValidUrl_def n by (simp add: isValidMaxPages_def init_def)
  have l: "lastCrawlTime ?s = 0" by (simp add: init_def)
  have p: "posted (snd ?c) \<noteq> []"
    using c by (simp add: crawlWebsite_def l CRAWL_COOLDOWN_def Let_def)
  have r: "result (fst ?c) = JNull"
    using c by (simp add: crawlWebsite_def l CRAWL_COOLDOWN_def Let_def init_def)
  note T = loading_released [of sampleEnv Rejected "fst ?c" 1700000000000]
  note U = loading_released [of sampleEnv Rejected ?s 1700000000000]
  from U p have "loading (fst ?c)" by blast
  moreover from T have "loading (fst (crawlWebsite_resume sampleEnv Rejected (fst ?c))) = False"
    by (rule conjunct1)
  moreover from T have "result (fst (crawlWebsite_resume sampleEnv Rejected (fst ?c))) = result (fst ?c)"
    by blast
  then have "result (fst (crawlWebsite_resume sampleEnv Rejected (fst ?c))) = JNull"
    unfolding r .
  ultimately show ?thesis using p by blast
qed

text \<open>
  Claim C8. The claim does not hold of the source. The crawl button is disabled while
  \<open>loading\<close> is true, and a click on it then changes nothing; but releasing the Enter key
  in the URL input calls \<open>crawlWebsite\<close>, which does not look at \<open>loading\<close>. With a URL that
  parses, a second Enter 6000 ms after the first, while the first request is pending,
  posts a second request.
\<close>

theorem enter_key_second_request:
  assumes "url_parses E ''https://example.com''"
  shows "loading (ui (run E [InputUrl ''example.com'', KeyUp ''Enter'' 1700000000000]))
         \<and> length (inflight (run E [InputUrl ''example.com'', KeyUp ''Enter'' 1700000000000])) = 1
         \<and> length (inflight (run E [InputUrl ''example.com'', KeyUp ''Enter'' 1700000000000,
                                      KeyUp ''Enter'' 1700000006000])) = 2
         \<and> run E [InputUrl ''example.com'', KeyUp ''Enter'' 1700000000000,
                  ClickCrawl 1700000006000]
            = run E [InputUrl ''example.com'', KeyUp ''Enter'' 1700000000000]"
proof -
  have c: "canCrawl E st" if "url st = ''example.com''" and "maxPages st = Finite 10" for st
    using assms that
    by (simp add: canCrawl_def isValidUrl_def isValidMaxPages_def normalizedUrl_example)
  show ?thesis
    by (simp add: run_def step_def init_def handleKeyPress_def clickCrawl_def
        crawlWebsite_def CRAWL_COOLDOWN_def Let_def c)
qed

theorem enter_key_second_request_witness:
  "url_parses sampleEnv ''https://example.com''
   \<and> loading (ui (run sampleEnv [InputUrl ''example.com'', KeyUp ''Enter'' 1700000000000]))
   \<and> length (inflight (run sampleEnv [InputUrl ''example.com'', KeyUp ''Enter'' 1700000000000,
                                      KeyUp ''Enter'' 1700000006000])) = 2"
proof -
  have h: "url_parses sampleEnv ''https://example.com''" by (simp add: sampleEnv_def)
  from h enter_key_second_request [OF h] show ?thesis by blast
qed

text \<open>
  Claim C10. The claim does not hold of the source. Without the build-time variable the
  base URL of the HTTP client is the default host, but the address handed to
  \<^verbatim>\<open>axios.post\<close> is built from the variable itself and reads \<^verbatim>\<open>undefined/crawl\<close>; it is
  relative, so the request goes to the path \<^verbatim>\<open>/undefined/crawl\<close> of the default host.
\<close>

theorem absent_variable_address:
  "crawlEndpoint (E\<lparr>VITE_API_URL := None\<rparr>) = ''undefined/crawl''
   \<and> apiUrl (E\<lparr>VITE_API_URL := None\<rparr>) = ''https://api.websitetotext.com''
   \<and> requestAddress (E\<lparr>VITE_API_URL := None\<rparr>)
       = ''https://api.websitetotext.com/undefined/crawl''
   \<and> requestAddress (E\<lparr>VITE_API_URL := None\<rparr>) \<noteq> ''https://api.websitetotext.com/crawl''"
  by (simp add: crawlEndpoint_def apiUrl_def requestAddress_def buildFullPath_def
      isAbsoluteURL_def startsWith_def isSchemeStart_def isSchemeChar_def isDigit_def
      combineURLs_def dropTrailingSlashes_def)

theorem absent_variable_address_witness:
  "VITE_API_URL sampleEnv = None
   \<and> requestAddress sampleEnv = ''https://api.websitetotext.com/undefined/crawl''"
proof -
  have e: "sampleEnv\<lparr>VITE_API_URL := None\<rparr> = sampleEnv" by (simp add: sampleEnv_def)
  have "VITE_API_URL sampleEnv = None" by (simp add: sampleEnv_def)
  with absent_variable_address [of sampleEnv] show ?thesis unfolding e by blast
qed

section \<open>Properties of the text export\<close>







text \<open>
  Claim C5. The claim does not hold of the source for the content \<^verbatim>\<open>null\<close>: the test
  \<^verbatim>\<open>typeof page.content !== "object"\<close> lets \<^verbatim>\<open>null\<close> through, and reading
  \<^verbatim>\<open>page.content["h1"]\<close> throws. On the result \<^verbatim>\<open>{pages: [{content: null}]}\<close> the
  export ends with a \<open>TypeError\<close> and downloads nothing.
\<close>

theorem convertToTxt_null_content:
  "pageItems (JObj [(''content'', JNull)]) = Inl TypeError
   \<and> convertToTxt E (st\<lparr>result := nullContentResult\<rparr>) = Inl TypeError"
  by (simp add: convertToTxt_def nullContentResult_def pageItems_def headerKeys_def)

theorem convertToTxt_null_content_witness:
  "convertToTxt sampleEnv ((init sampleEnv)\<lparr>result := nullContentResult\<rparr>) = Inl TypeError"
  using convertToTxt_null_content [of sampleEnv "init sampleEnv"] by (rule conjunct2)

text \<open>
  Claim C6. When the stored result is falsy (\<^verbatim>\<open>null\<close> before the first crawl) or its
  \<^verbatim>\<open>pages\<close> is not an array, the export logs the result, logs the error, shows the alert
  and returns: these are all its effects, with no blob created and nothing downloaded.
\<close>

theorem convertToTxt_rejects:
  assumes "falsy (result st) \<or> (\<forall>ps. getProp (result st) ''pages'' \<noteq> Inr (JArr ps))"
  shows "convertToTxt E st =
           Inr [ConsoleLog ''Converting to TXT, result:'',
                ConsoleError ''Invalid result structure:'',
                Alert ''The data structure is not in the expected format.'']"
proof (cases "falsy (result st)")
  case True
  then show ?thesis by (simp add: convertToTxt_def notExpectedFormat_def)
next
  case False
  with assms have na: "\<forall>ps. getProp (result st) ''pages'' \<noteq> Inr (JArr ps)" by simp
  from False obtain v where v: "getProp (result st) ''pages'' = Inr v"
    by (cases "result st") auto
  with na have "\<not> isArray v" by (cases v) auto
  with False v show ?thesis by (simp add: convertToTxt_def notExpectedFormat_def)
qed

theorem convertToTxt_rejects_witness:
  "falsy (result (init sampleEnv))
   \<and> convertToTxt sampleEnv (init sampleEnv) =
       Inr [ConsoleLog ''Converting to TXT, result:'',
            ConsoleError ''Invalid result structure:'',
            Alert ''The data structure is not in the expected format.'']
   \<and> \<not> falsy (result ((init sampleEnv)\<lparr>result := JObj [(''pages'', JStr ''none'')]\<rparr>))
   \<and> (\<forall>ps. getProp (result ((init sampleEnv)\<lparr>result := JObj [(''pages'', JStr ''none'')]\<rparr>)) ''pages''
          \<noteq> Inr (JArr ps))
   \<and> convertToTxt sampleEnv ((init sampleEnv)\<lparr>result := JObj [(''pages'', JStr ''none'')]\<rparr>) =
       Inr [ConsoleLog ''Converting to TXT, result:'',
            ConsoleError ''Invalid result structure:'',
            Alert ''The data structure is not in the expected format.'']"
proof -
  let ?t = "(init sampleEnv)\<lparr>result := JObj [(''pages'', JStr ''none'')]\<rparr>"
  have a: "falsy (result (init sampleEnv))" by (simp add: init_def)
  have b: "\<not> falsy (result ?t)" by simp
  have c: "\<forall>ps. getProp (result ?t) ''pages'' \<noteq> Inr (JArr ps)" by simp
  from a have a': "falsy (result (init sampleEnv))
      \<or> (\<forall>ps. getProp (result (init sampleEnv)) ''pages'' \<noteq> Inr (JArr ps))" ..
  from c have c': "falsy (result ?t) \<or> (\<forall>ps. getProp (result ?t) ''pages'' \<noteq> Inr (JArr ps))" ..
  from a b c convertToTxt_rejects [OF a', of sampleEnv] convertToTxt_rejects [OF c', of sampleEnv]
  show ?thesis by blast
qed

end
